theory Spec2Isabelle
  imports Main
begin

section \<open>Python strings and exceptions\<close>

text \<open>
  A Python \<open>str\<close> is modelled as a \<open>string\<close>, one \<open>char\<close> per character (code points
  below 256). \<open>isspace\<close> is the whitespace test shared by \<open>str.strip\<close> and by the regular
  expression class \<open>\s\<close> on \<open>str\<close> patterns: TAB, LF, VT, FF, CR, the separators
  0x1C..0x1F, the blank, NEL (0x85) and the no-break space (0xA0).
\<close>

definition whitespace :: "char list" where
  "whitespace = [CHR 0x09, CHR 0x0A, CHR 0x0B, CHR 0x0C, CHR 0x0D,
                 CHR 0x1C, CHR 0x1D, CHR 0x1E, CHR 0x1F, CHR 0x20, CHR 0x85, CHR 0xA0]"

definition isspace :: "char \<Rightarrow> bool" where
  "isspace c = (c \<in> set whitespace)"

definition strip :: "string \<Rightarrow> string" where
  "strip s = rev (dropWhile isspace (rev (dropWhile isspace s)))"

text \<open>\<open>sep.join(xs)\<close>.\<close>

fun join :: "string \<Rightarrow> string list \<Rightarrow> string" where
  "join sep [] = []"
| "join sep [x] = x"
| "join sep (x # y # ys) = x @ sep @ join sep (y # ys)"

text \<open>\<open>str(n)\<close> for a non-negative integer: its decimal digits.\<close>

definition digit_char :: "nat \<Rightarrow> char" where
  "digit_char d = ''0123456789'' ! (d mod 10)"

fun str_nat :: "nat \<Rightarrow> string" where
  "str_nat n = (if n < 10 then [digit_char n] else str_nat (n div 10) @ [digit_char (n mod 10)])"

declare str_nat.simps [simp del]

definition str_int :: "int \<Rightarrow> string" where
  "str_int i = (if i < 0 then CHR ''-'' # str_nat (nat (- i)) else str_nat (nat i))"

text \<open>
  An exception is its class name and its message; \<open>f"{e}"\<close> prints the message.
\<close>

datatype exn = Exception (exn_class: string) (exn_message: string)

text \<open>
  What the program does to the outside, in order: a line printed, and the calls made to
  the vector store and to the generative model. A metadata dictionary is an association
  list in insertion order.
\<close>

type_synonym metadata = "(string \<times> string) list"

datatype event =
    Print string
  | Count
  | Add (add_ids: "string list") (add_documents: "string list") (add_metadatas: "metadata list")
  | Query "string list" int
  | DeleteCollection string
  | CreateCollection string
  | Generate string string

section \<open>Structured-QA extraction (process_medquad_data.py)\<close>

text \<open>
  The tree \<open>ET.fromstring\<close> returns: an element has a tag, the text before its first child
  (\<open>None\<close> when there is none) and its children in document order. Attributes and tails
  are not read by the program. \<open>fromstring\<close> itself is the XML library's and is a
  parameter of the model: \<open>Inl msg\<close> is \<open>ET.ParseError\<close> with that message.
\<close>

datatype element = Element (tag: string) (elem_text: "string option") (children: "element list")

text \<open>\<open>elem.iter()\<close>: the element and all its descendants, in document order.\<close>

fun iter :: "element \<Rightarrow> element list" where
  "iter (Element t x cs) = Element t x cs # concat (map iter cs)"

text \<open>
  \<open>elem.findall('.//T')\<close>: the elements of \<open>elem.iter('T')\<close> other than \<open>elem\<close> itself,
  that is, the descendants tagged \<open>T\<close>, in document order.
\<close>

definition findall_descendants :: "string \<Rightarrow> element \<Rightarrow> element list" where
  "findall_descendants t elem = filter (\<lambda>e. tag e = t) (concat (map iter (children elem)))"

text \<open>\<open>elem.find('T')\<close>: the first child tagged \<open>T\<close>, or \<open>None\<close>.\<close>

definition find_child :: "string \<Rightarrow> element \<Rightarrow> element option" where
  "find_child t elem = List.find (\<lambda>e. tag e = t) (children elem)"

record qa =
  question :: string
  answer :: string

text \<open>\<open>elem.text.strip() if elem.text else ""\<close>.\<close>

definition text_stripped :: "element \<Rightarrow> string" where
  "text_stripped elem = (case elem_text elem of None \<Rightarrow> [] | Some t \<Rightarrow> if t \<noteq> [] then strip t else [])"

text \<open>The loop over the QAPair elements, appending to \<open>qa_pairs\<close>.\<close>

fun qa_loop :: "element list \<Rightarrow> qa list \<Rightarrow> qa list" where
  "qa_loop [] qa_pairs = qa_pairs"
| "qa_loop (qa_pair # rest) qa_pairs =
     (case find_child ''Question'' qa_pair of
        None \<Rightarrow> qa_loop rest qa_pairs
      | Some question_elem \<Rightarrow>
          (case find_child ''Answer'' qa_pair of
             None \<Rightarrow> qa_loop rest qa_pairs
           | Some answer_elem \<Rightarrow>
               (let q = text_stripped question_elem;
                    a = text_stripped answer_elem
                in if q \<noteq> [] \<and> a \<noteq> []
                   then qa_loop rest (qa_pairs @ [\<lparr>question = q, answer = a\<rparr>])
                   else qa_loop rest qa_pairs)))"

text \<open>The result is what is printed and the list returned.\<close>

definition extract_qa_from_xml :: "(string \<Rightarrow> string + element) \<Rightarrow> string \<Rightarrow> event list \<times> qa list" where
  "extract_qa_from_xml fromstring xml_content =
     (case fromstring xml_content of
        Inl e \<Rightarrow> ([Print (''Error parsing XML: '' @ e)], [])
      | Inr root \<Rightarrow> ([], qa_loop (findall_descendants ''QAPair'' root) []))"

section \<open>Loading a directory tree (process_medquad_data.py)\<close>

text \<open>
  The directory under \<open>directory_path\<close>, as \<open>os.walk\<close> lists it: the files of a directory
  with what \<open>open(...).read()\<close> gives for each (the content, or the exception raised), and
  its subdirectories, both in listing order.
\<close>

datatype fs_tree =
  Dir (dir_files: "(string \<times> (exn + string)) list") (dir_subdirs: "(string \<times> fs_tree) list")

text \<open>\<open>os.path.join(a, b)\<close> and \<open>os.path.basename(p)\<close> on POSIX paths.\<close>

definition path_join :: "string \<Rightarrow> string \<Rightarrow> string" where
  "path_join a b =
     (if b \<noteq> [] \<and> hd b = CHR ''/'' then b
      else if a = [] \<or> last a = CHR ''/'' then a @ b
      else a @ ''/'' @ b)"

definition basename :: "string \<Rightarrow> string" where
  "basename p = rev (takeWhile (\<lambda>c. c \<noteq> CHR ''/'') (rev p))"

definition endswith :: "string \<Rightarrow> string \<Rightarrow> bool" where
  "endswith s suffix = (take (length suffix) (rev s) = rev suffix)"

definition startswith :: "string \<Rightarrow> string \<Rightarrow> bool" where
  "startswith s prefix = (take (length prefix) s = prefix)"

text \<open>
  A file found by the walk: its \<open>file_path\<close>, its
  \<open>os.path.relpath(file_path, directory_path)\<close> (the names below \<open>directory_path\<close>
  joined by \<open>/\<close>), and what reading it gives.
\<close>

record xml_file =
  file_path :: string
  relpath :: string
  contents :: "exn + string"

text \<open>\<open>if specific_dirs: dirs[:] = [d for d in dirs if d in specific_dirs]\<close>.\<close>

definition keep_dir :: "string list option \<Rightarrow> string \<Rightarrow> bool" where
  "keep_dir specific_dirs d =
     (case specific_dirs of None \<Rightarrow> True | Some [] \<Rightarrow> True | Some (x # xs) \<Rightarrow> d \<in> set (x # xs))"

text \<open>
  The walk, top-down: the \<open>.xml\<close> files of a directory, then those of each subdirectory
  that was kept.
\<close>

fun walk_xml_files :: "string list option \<Rightarrow> string \<Rightarrow> string list \<Rightarrow> fs_tree \<Rightarrow> xml_file list" where
  "walk_xml_files specific_dirs root rel (Dir files dirs) =
     map (\<lambda>f. \<lparr>file_path = path_join root (fst f),
               relpath = join ''/'' (rel @ [fst f]),
               contents = snd f\<rparr>)
         (filter (\<lambda>f. endswith (fst f) ''.xml'') files)
     @ concat (map (\<lambda>d. if keep_dir specific_dirs (fst d)
                         then walk_xml_files specific_dirs (path_join root (fst d)) (rel @ [fst d]) (snd d)
                         else [])
                   dirs)"

text \<open>\<open>xs[:n]\<close>.\<close>

definition slice_to :: "'a list \<Rightarrow> int \<Rightarrow> 'a list" where
  "slice_to xs n = (if 0 \<le> n then take (nat n) xs else take (length xs - nat (- n)) xs)"

record document =
  doc_id :: string
  doc_text :: string
  doc_question :: string
  doc_answer :: string
  doc_source_file :: string

text \<open>The local variables of \<open>load_xml_documents_from_directory\<close>, and what it printed.\<close>

record load_state =
  documents :: "document list"
  total_files :: nat
  total_qa_pairs :: nat
  processed_files :: nat
  printed :: "event list"

text \<open>\<open>for i, qa in enumerate(qa_pairs)\<close>.\<close>

fun qa_documents_loop :: "string \<Rightarrow> nat \<Rightarrow> qa list \<Rightarrow> load_state \<Rightarrow> load_state" where
  "qa_documents_loop rp i [] st = st"
| "qa_documents_loop rp i (qa # rest) st =
     qa_documents_loop rp (i + 1) rest
       (st\<lparr>documents := documents st @
              [\<lparr>doc_id = rp @ ''_qa_'' @ str_nat (i + 1),
                doc_text = ''Question: '' @ question qa @ [CHR 0x0A] @ ''Answer: '' @ answer qa,
                doc_question = question qa,
                doc_answer = answer qa,
                doc_source_file = rp\<rparr>],
            total_qa_pairs := total_qa_pairs st + 1\<rparr>)"

text \<open>
  The body of \<open>for file_path in all_xml_files\<close>, with its \<open>try\<close> around reading and
  extracting; \<open>n\<close> is \<open>len(all_xml_files)\<close>.
\<close>

definition process_file :: "(string \<Rightarrow> string + element) \<Rightarrow> nat \<Rightarrow> xml_file \<Rightarrow> load_state \<Rightarrow> load_state" where
  "process_file fromstring n f st =
     (let st1 = st\<lparr>total_files := total_files st + 1, processed_files := processed_files st + 1\<rparr>;
          st2 = (if processed_files st1 mod 10 = 0
                 then st1\<lparr>printed := printed st1 @
                        [Print (''Processing file '' @ str_nat (processed_files st1) @ ''/'' @ str_nat n
                                @ '': '' @ basename (file_path f))]\<rparr>
                 else st1)
      in case contents f of
           Inl e \<Rightarrow>
             st2\<lparr>printed := printed st2 @
                   [Print (''Error processing '' @ file_path f @ '': '' @ exn_message e)]\<rparr>
         | Inr xml_content \<Rightarrow>
             (case extract_qa_from_xml fromstring xml_content of
                (out, qa_pairs) \<Rightarrow>
                  qa_documents_loop (relpath f) 0 qa_pairs (st2\<lparr>printed := printed st2 @ out\<rparr>)))"

fun files_loop :: "(string \<Rightarrow> string + element) \<Rightarrow> nat \<Rightarrow> xml_file list \<Rightarrow> load_state \<Rightarrow> load_state" where
  "files_loop fromstring n [] st = st"
| "files_loop fromstring n (f # rest) st = files_loop fromstring n rest (process_file fromstring n f st)"

text \<open>\<open>if max_files:\<close> holds for an integer other than 0.\<close>

definition limit_files :: "int option \<Rightarrow> xml_file list \<Rightarrow> event list \<times> xml_file list" where
  "limit_files max_files all_xml_files =
     (case max_files of
        None \<Rightarrow> ([], all_xml_files)
      | Some m \<Rightarrow>
          if m \<noteq> 0
          then ([Print (''Processing first '' @ str_int m @ '' files for testing'')],
                slice_to all_xml_files m)
          else ([], all_xml_files))"

definition load_xml_documents_from_directory ::
  "(string \<Rightarrow> string + element) \<Rightarrow> string \<Rightarrow> fs_tree \<Rightarrow> int option \<Rightarrow> string list option
   \<Rightarrow> event list \<times> document list" where
  "load_xml_documents_from_directory fromstring directory_path tree max_files specific_dirs =
     (let found = walk_xml_files specific_dirs directory_path [] tree;
          (out, all_xml_files) = limit_files max_files found;
          st = files_loop fromstring (length all_xml_files) all_xml_files
                 \<lparr>documents = [], total_files = 0, total_qa_pairs = 0, processed_files = 0,
                  printed = [Print ''==== Loading XML documents from directory and subdirectories ===='',
                             Print (''Found '' @ str_nat (length found) @ '' XML files'')] @ out\<rparr>
      in (printed st @
            [Print (''Processed '' @ str_nat (total_files st) @ '' XML files''),
             Print (''Extracted '' @ str_nat (total_qa_pairs st) @ '' QA pairs'')],
          documents st))"

section \<open>The vector store and the batched ingestor\<close>

text \<open>
  The store is an outside service. Its behaviour is a parameter: a record of the
  operations the program calls, over a collection state \<open>'s\<close> the program never looks
  into. \<open>add\<close> returns the exception raised, if any, and the collection afterwards.
  Distances are values of a type \<open>'d\<close> that the program only passes on.
\<close>

record 'd query_result =
  res_documents :: "string list list"
  res_metadatas :: "metadata list list"
  res_distances :: "'d list list"

record ('s, 'd) chroma =
  count :: "'s \<Rightarrow> nat"
  add :: "'s \<Rightarrow> string list \<Rightarrow> string list \<Rightarrow> metadata list \<Rightarrow> exn option \<times> 's"
  query :: "'s \<Rightarrow> string list \<Rightarrow> int \<Rightarrow> exn + 'd query_result"
  delete_collection :: "'s \<Rightarrow> string \<Rightarrow> exn option"
  create_collection :: "string \<Rightarrow> exn + 's"

text \<open>
  The state a run works on: the collection behind the global \<open>collection\<close>, the events
  so far, and the lines the operator will still type.
\<close>

record 's world =
  collection :: 's
  trace :: "event list"
  stdin :: "string list"

definition emit :: "event list \<Rightarrow> 's world \<Rightarrow> 's world" where
  "emit es w = w\<lparr>trace := trace w @ es\<rparr>"

definition collection_name :: string where
  "collection_name = ''medquad_qa_collection''"

text \<open>\<open>range(0, stop, step)\<close>, for \<open>stop = len(...)\<close>.\<close>

definition py_range :: "nat \<Rightarrow> int \<Rightarrow> exn + nat list" where
  "py_range stop step =
     (if step = 0 then Inl (Exception ''ValueError'' ''range() arg 3 must not be zero'')
      else if step < 0 then Inr []
      else Inr (map (\<lambda>k. k * nat step) [0..<(stop + nat step - 1) div nat step]))"

text \<open>
  The batch loop that \<open>add_documents_to_chroma_batch\<close> and \<open>add_medlineplus_to_chroma\<close>
  both run. They differ in the three fields read from a document and in the noun of the
  progress line, which are parameters here. No \<open>try\<close> surrounds \<open>collection.add\<close>: an
  exception leaves the loop and the function.
\<close>

fun batch_loop ::
  "('s, 'd) chroma \<Rightarrow> ('a \<Rightarrow> string) \<Rightarrow> ('a \<Rightarrow> string) \<Rightarrow> ('a \<Rightarrow> metadata) \<Rightarrow> string
   \<Rightarrow> 'a list \<Rightarrow> int \<Rightarrow> nat list \<Rightarrow> nat \<Rightarrow> 's world \<Rightarrow> (exn + nat) \<times> 's world" where
  "batch_loop store id_of text_of meta_of noun docs batch_size [] added_docs w = (Inr added_docs, w)"
| "batch_loop store id_of text_of meta_of noun docs batch_size (i # rest) added_docs w =
     (let batch = take (nat batch_size) (drop i docs);
          ids = map id_of batch;
          texts = map text_of batch;
          metadatas = map meta_of batch;
          w1 = emit [Add ids texts metadatas] w
      in case add store (collection w1) ids texts metadatas of
           (Some e, s) \<Rightarrow> (Inl e, w1\<lparr>collection := s\<rparr>)
         | (None, s) \<Rightarrow>
             (let added = added_docs + length batch
              in batch_loop store id_of text_of meta_of noun docs batch_size rest added
                   (emit [Print (''Added batch '' @ str_nat (i div nat batch_size + 1) @ '': ''
                                 @ str_nat (length batch) @ '' '' @ noun @ '' (Total: ''
                                 @ str_nat added @ ''/'' @ str_nat (length docs) @ '')'')]
                      (w1\<lparr>collection := s\<rparr>))))"

definition qa_metadata :: "document \<Rightarrow> metadata" where
  "qa_metadata doc = [(''question'', doc_question doc), (''answer'', doc_answer doc),
                      (''source_file'', doc_source_file doc)]"

definition add_documents_to_chroma_batch ::
  "document list \<Rightarrow> ('s, 'd) chroma \<Rightarrow> int \<Rightarrow> 's world \<Rightarrow> exn option \<times> 's world" where
  "add_documents_to_chroma_batch docs store batch_size w =
     (let w0 = emit [Print (''==== Adding documents to ChromaDB ===='')] w
      in case py_range (length docs) batch_size of
           Inl e \<Rightarrow> (Some e, w0)
         | Inr indices \<Rightarrow>
             (case batch_loop store doc_id doc_text qa_metadata ''documents'' docs batch_size indices 0 w0 of
                (Inl e, w1) \<Rightarrow> (Some e, w1)
              | (Inr added_docs, w1) \<Rightarrow>
                  (None, emit [Print (''Successfully added '' @ str_nat added_docs
                                      @ '' documents to ChromaDB collection'')] w1)))"

section \<open>The write run of process_medquad_data.py\<close>

text \<open>
  \<open>input(...)\<close> takes the next line the operator types; with none left it raises
  \<open>EOFError\<close>. The prompts and the messages \<open>main\<close> itself prints are not modelled: the
  trace holds the lines printed by the functions it calls, and the calls to the store.
  \<open>int(...)\<close> is Python's and is a parameter.
\<close>

definition input :: "'s world \<Rightarrow> (exn + string) \<times> 's world" where
  "input w = (case stdin w of
                [] \<Rightarrow> (Inl (Exception ''EOFError'' ''EOF when reading a line''), w)
              | l # ls \<Rightarrow> (Inr l, w\<lparr>stdin := ls\<rparr>))"

text \<open>\<open>str.lower\<close> on the characters below 256.\<close>

definition lower_char :: "char \<Rightarrow> char" where
  "lower_char c =
     (let n = (of_char c :: nat)
      in if (65 \<le> n \<and> n \<le> 90) \<or> (192 \<le> n \<and> n \<le> 222 \<and> n \<noteq> 215) then char_of (n + 32) else c)"

definition lower :: "string \<Rightarrow> string" where
  "lower s = map lower_char s"

text \<open>The part of \<open>main\<close> after the check of the collection: load, and add when there is
  something to add; \<open>collection.count()\<close> is then asked once more for the closing line.\<close>

definition ingest ::
  "(string \<Rightarrow> string + element) \<Rightarrow> ('s, 'd) chroma \<Rightarrow> fs_tree \<Rightarrow> int option \<Rightarrow> string list option
   \<Rightarrow> 's world \<Rightarrow> exn option \<times> 's world" where
  "ingest fromstring store tree MAX_FILES SPECIFIC_DIRS w =
     (case load_xml_documents_from_directory fromstring ''./MedQuAD/'' tree MAX_FILES SPECIFIC_DIRS of
        (out, docs) \<Rightarrow>
          if docs \<noteq> []
          then (case add_documents_to_chroma_batch docs store 50 (emit out w) of
                  (Some e, w1) \<Rightarrow> (Some e, w1)
                | (None, w1) \<Rightarrow> (None, emit [Count] w1))
          else (None, emit out w))"

text \<open>The check of the collection, and the operator's choice when it holds documents.\<close>

definition check_existing ::
  "(string \<Rightarrow> string + element) \<Rightarrow> ('s, 'd) chroma \<Rightarrow> fs_tree \<Rightarrow> int option \<Rightarrow> string list option
   \<Rightarrow> 's world \<Rightarrow> exn option \<times> 's world" where
  "check_existing fromstring store tree MAX_FILES SPECIFIC_DIRS w =
     (let existing_count = count store (collection w);
          w1 = emit [Count] w
      in if existing_count > 0
         then (case input w1 of
                 (Inl e, w2) \<Rightarrow> (Some e, w2)
               | (Inr line, w2) \<Rightarrow>
                   if lower line = ''y''
                   then (let w3 = emit [DeleteCollection collection_name] w2
                         in case delete_collection store (collection w3) collection_name of
                              Some e \<Rightarrow> (Some e, w3)
                            | None \<Rightarrow>
                                (let w4 = emit [CreateCollection collection_name] w3
                                 in case create_collection store collection_name of
                                      Inl e \<Rightarrow> (Some e, w4)
                                    | Inr s \<Rightarrow>
                                        ingest fromstring store tree MAX_FILES SPECIFIC_DIRS
                                          (w4\<lparr>collection := s\<rparr>)))
                   else (None, w2))
         else ingest fromstring store tree MAX_FILES SPECIFIC_DIRS w1)"

definition main_process_medquad_data ::
  "(string \<Rightarrow> string + element) \<Rightarrow> (string \<Rightarrow> exn + int) \<Rightarrow> ('s, 'd) chroma \<Rightarrow> fs_tree
   \<Rightarrow> 's world \<Rightarrow> exn option \<times> 's world" where
  "main_process_medquad_data fromstring py_int store tree w =
     (case input w of
        (Inl e, w1) \<Rightarrow> (Some e, w1)
      | (Inr line, w1) \<Rightarrow>
          if lower line \<noteq> ''n''
          then (case input w1 of
                  (Inl e, w2) \<Rightarrow> (Some e, w2)
                | (Inr number, w2) \<Rightarrow>
                    (case py_int (if number \<noteq> [] then number else ''50'') of
                       Inl e \<Rightarrow> (Some e, w2)
                     | Inr MAX_FILES \<Rightarrow>
                         check_existing fromstring store tree (Some MAX_FILES) (Some [''1_CancerGov_QA'']) w2))
          else check_existing fromstring store tree None None w1)"

section \<open>Article extraction (scrape_medlineplus.py)\<close>

text \<open>
  Fetching and parsing a page are the HTTP and HTML libraries' work. A parsed page is
  what the program asks of it: the \<open>href\<close> of every anchor that has one, in document
  order; for the \<open>ul\<close> with id \<open>index\<close>, when there is one, the \<open>href\<close> and the stripped
  text of each of its anchors; the stripped text of the first \<open>h1\<close>; and
  \<open>get_text(separator=' ', strip=True)\<close> of the \<open>div\<close> with id \<open>ency_content\<close>. A found
  tag always counts as true. The parameter \<open>web\<close> gives, for a URL, the parsed page or
  the exception raised on the way; \<open>urljoin\<close> is the URL library's.
\<close>

record soup =
  hrefs :: "string list"
  index_ul :: "(string \<times> string) list option"
  h1 :: "string option"
  ency_content :: "string option"

definition BASE_URL :: string where
  "BASE_URL = ''https://medlineplus.gov''"

definition ENCYCLOPEDIA_URL :: string where
  "ENCYCLOPEDIA_URL = ''https://medlineplus.gov/encyclopedia.html''"

text \<open>
  \<open>re.match(r"^/?ency/encyclopedia_[A-Z0-9]\.htm$", href)\<close>; the \<open>$\<close> also matches
  before a newline that ends the string.
\<close>

definition is_upper_or_digit :: "char \<Rightarrow> bool" where
  "is_upper_or_digit c = (let n = (of_char c :: nat) in (65 \<le> n \<and> n \<le> 90) \<or> (48 \<le> n \<and> n \<le> 57))"

definition is_index_href :: "string \<Rightarrow> bool" where
  "is_index_href href =
     (let h = (if href \<noteq> [] \<and> hd href = CHR ''/'' then tl href else href)
      in take 18 h = ''ency/encyclopedia_'' \<and>
         (case drop 18 h of
            [] \<Rightarrow> False
          | c # r \<Rightarrow> is_upper_or_digit c \<and> (r = ''.htm'' \<or> r = ''.htm'' @ [CHR 0x0A])))"

definition get_index_links :: "(string \<Rightarrow> exn + soup) \<Rightarrow> (string \<Rightarrow> string \<Rightarrow> string) \<Rightarrow> event list \<times> string list" where
  "get_index_links web urljoin =
     (case web ENCYCLOPEDIA_URL of
        Inl e \<Rightarrow>
          ([Print ''Fetching A-Z,0-9 index links...'',
            Print (''Error fetching index links: '' @ exn_message e)], [])
      | Inr page \<Rightarrow>
          (let index_links = map (urljoin BASE_URL) (filter is_index_href (hrefs page))
           in ([Print ''Fetching A-Z,0-9 index links...'',
                Print (''Found '' @ str_nat (length index_links) @ '' index pages.'')],
               index_links)))"

record article_link =
  link_url :: string
  anchor_title :: string

definition get_article_links_from_index ::
  "(string \<Rightarrow> exn + soup) \<Rightarrow> (string \<Rightarrow> string \<Rightarrow> string) \<Rightarrow> string \<Rightarrow> event list \<times> article_link list" where
  "get_article_links_from_index web urljoin index_url =
     (case web index_url of
        Inl e \<Rightarrow>
          ([Print (''Error fetching articles from '' @ index_url @ '': '' @ exn_message e)], [])
      | Inr page \<Rightarrow>
          (case index_ul page of
             None \<Rightarrow> ([Print (''No <ul id='' @ [CHR 0x27] @ ''index'' @ [CHR 0x27] @ ''> found in '' @ index_url)], [])
           | Some links \<Rightarrow>
               ([], map (\<lambda>l. \<lparr>link_url = urljoin index_url (fst l), anchor_title = snd l\<rparr>)
                        (filter (\<lambda>l. startswith (fst l) ''article/'' \<and> endswith (fst l) ''.htm'') links))))"

text \<open>\<open>re.sub(r'\s+', ' ', s)\<close>: each maximal run of whitespace becomes one blank.\<close>

function collapse_whitespace :: "string \<Rightarrow> string" where
  "collapse_whitespace [] = []"
| "collapse_whitespace (c # cs) =
     (if isspace c then CHR '' '' # collapse_whitespace (dropWhile isspace cs)
      else c # collapse_whitespace cs)"
  by pat_completeness auto
termination
  by (relation "measure length") (auto simp: length_dropWhile_le less_Suc_eq_le)

record article =
  title :: string
  content :: string
  url :: string

definition scrape_article_content :: "(string \<Rightarrow> exn + soup) \<Rightarrow> string \<Rightarrow> string \<Rightarrow> event list \<times> article option" where
  "scrape_article_content web u anchor =
     (case web u of
        Inl e \<Rightarrow> ([Print (''Error scraping '' @ u @ '': '' @ exn_message e)], None)
      | Inr page \<Rightarrow>
          (let t = (case h1 page of Some heading \<Rightarrow> heading | None \<Rightarrow> anchor)
           in case ency_content page of
                None \<Rightarrow> ([], None)
              | Some raw \<Rightarrow>
                  (let content_text = strip (collapse_whitespace raw)
                   in if length content_text < 100 then ([], None)
                      else ([], Some \<lparr>title = t, content = content_text, url = u\<rparr>))))"

record article_document =
  adoc_id :: string
  adoc_text :: string
  adoc_title :: string
  adoc_content :: string
  adoc_source :: string
  adoc_url :: string

text \<open>
  \<open>for i, article in enumerate(articles): if article: ...\<close>; an entry that counts as
  false (\<open>None\<close>) is passed over, and still takes its number.
\<close>

fun article_documents_loop :: "nat \<Rightarrow> article option list \<Rightarrow> article_document list \<Rightarrow> article_document list" where
  "article_documents_loop i [] docs = docs"
| "article_documents_loop i (None # rest) docs = article_documents_loop (i + 1) rest docs"
| "article_documents_loop i (Some a # rest) docs =
     article_documents_loop (i + 1) rest
       (docs @ [\<lparr>adoc_id = ''medlineplus_'' @ str_nat (i + 1),
                 adoc_text = ''Title: '' @ title a @ [CHR 0x0A] @ ''Content: '' @ content a,
                 adoc_title = title a,
                 adoc_content = content a,
                 adoc_source = ''MedlinePlus Encyclopedia'',
                 adoc_url = url a\<rparr>])"

definition article_metadata :: "article_document \<Rightarrow> metadata" where
  "article_metadata doc = [(''title'', adoc_title doc), (''content'', adoc_content doc),
                           (''source'', adoc_source doc), (''url'', adoc_url doc)]"

definition add_medlineplus_to_chroma ::
  "article option list \<Rightarrow> ('s, 'd) chroma \<Rightarrow> int \<Rightarrow> 's world \<Rightarrow> exn option \<times> 's world" where
  "add_medlineplus_to_chroma articles store batch_size w =
     (let w0 = emit [Print ''Adding MedlinePlus articles to ChromaDB...''] w;
          docs = article_documents_loop 0 articles []
      in case py_range (length docs) batch_size of
           Inl e \<Rightarrow> (Some e, w0)
         | Inr indices \<Rightarrow>
             (case batch_loop store adoc_id adoc_text article_metadata ''articles'' docs batch_size indices 0 w0 of
                (Inl e, w1) \<Rightarrow> (Some e, w1)
              | (Inr added_docs, w1) \<Rightarrow>
                  (None, emit [Print (''Successfully added '' @ str_nat added_docs
                                      @ '' MedlinePlus articles to ChromaDB'')] w1)))"

section \<open>The write run of scrape_medlineplus.py\<close>

text \<open>\<open>for idx_url in index_links: all_article_links.extend(...)\<close>.\<close>

fun collect_article_links ::
  "(string \<Rightarrow> exn + soup) \<Rightarrow> (string \<Rightarrow> string \<Rightarrow> string) \<Rightarrow> string list \<Rightarrow> event list \<times> article_link list
   \<Rightarrow> event list \<times> article_link list" where
  "collect_article_links web urljoin [] acc = acc"
| "collect_article_links web urljoin (idx_url # rest) acc =
     (case get_article_links_from_index web urljoin idx_url of
        (out, links) \<Rightarrow> collect_article_links web urljoin rest (fst acc @ out, snd acc @ links))"

text \<open>\<open>for i, link_info in enumerate(all_article_links)\<close>, keeping the articles scraped.\<close>

fun scrape_loop ::
  "(string \<Rightarrow> exn + soup) \<Rightarrow> article_link list \<Rightarrow> event list \<times> article list \<Rightarrow> event list \<times> article list" where
  "scrape_loop web [] acc = acc"
| "scrape_loop web (link_info # rest) acc =
     (case scrape_article_content web (link_url link_info) (anchor_title link_info) of
        (out, None) \<Rightarrow> scrape_loop web rest (fst acc @ out, snd acc)
      | (out, Some a) \<Rightarrow> scrape_loop web rest (fst acc @ out, snd acc @ [a]))"

text \<open>\<open>str.isdigit\<close> on the characters below 256: the ten digits and the superscripts
  one, two and three.\<close>

definition isdigit_char :: "char \<Rightarrow> bool" where
  "isdigit_char c = (let n = (of_char c :: nat) in (48 \<le> n \<and> n \<le> 57) \<or> n = 178 \<or> n = 179 \<or> n = 185)"

definition isdigit :: "string \<Rightarrow> bool" where
  "isdigit s = (s \<noteq> [] \<and> list_all isdigit_char s)"

text \<open>
  \<open>main\<close> of the scraper. It works on the collection as it finds it: the count is asked
  only after the articles were added. Its own messages are not modelled.
\<close>

definition main_scrape_medlineplus ::
  "(string \<Rightarrow> exn + soup) \<Rightarrow> (string \<Rightarrow> string \<Rightarrow> string) \<Rightarrow> (string \<Rightarrow> exn + int) \<Rightarrow> ('s, 'd) chroma
   \<Rightarrow> 's world \<Rightarrow> exn option \<times> 's world" where
  "main_scrape_medlineplus web urljoin py_int store w =
     (case get_index_links web urljoin of
        (out1, index_links) \<Rightarrow>
          if index_links = [] then (None, emit out1 w)
          else
            (case collect_article_links web urljoin index_links ([], []) of
               (out2, all_article_links) \<Rightarrow>
                 (case input (emit (out1 @ out2) w) of
                    (Inl e, w1) \<Rightarrow> (Some e, w1)
                  | (Inr line, w1) \<Rightarrow>
                      (let max_articles = strip line
                       in case (if lower max_articles = ''all'' then Inr (int (length all_article_links))
                                else if isdigit max_articles then py_int max_articles
                                else Inr 100) of
                            Inl e \<Rightarrow> (Some e, w1)
                          | Inr n \<Rightarrow>
                              (case scrape_loop web (slice_to all_article_links n) ([], []) of
                                 (out3, articles) \<Rightarrow>
                                   if articles \<noteq> []
                                   then (case add_medlineplus_to_chroma (map Some articles) store 50 (emit out3 w1) of
                                           (Some e, w2) \<Rightarrow> (Some e, w2)
                                         | (None, w2) \<Rightarrow> (None, emit [Count] w2))
                                   else (None, emit out3 w1))))))"

section \<open>The query path (query_medical_qa.py)\<close>

text \<open>
  The generative model is an outside service: \<open>client\<close> gives, for a model name and a
  prompt, the text of the response or the exception raised. The console messages of this
  file are not modelled; the trace holds its calls to the store and to the model.
\<close>

record 'd answer_result =
  answer_text :: string
  sources :: "metadata list"
  distances :: "'d list"

text \<open>\<open>xs[0]\<close>.\<close>

definition first_item :: "'a list \<Rightarrow> exn + 'a" where
  "first_item xs = (case xs of [] \<Rightarrow> Inl (Exception ''IndexError'' ''list index out of range'') | x # _ \<Rightarrow> Inr x)"

text \<open>The f-string of the prompt, with its line breaks and indentation.\<close>

definition prompt_of :: "string \<Rightarrow> string \<Rightarrow> string" where
  "prompt_of context question_text =
     ''You are a medical assistant. Based on the following medical information, answer the user''
     @ [CHR 0x27] @ ''s question. '' @ [CHR 0x0A]
     @ ''    If the information provided doesn'' @ [CHR 0x27] @ ''t contain the answer, say so clearly.''
     @ [CHR 0x0A, CHR 0x0A]
     @ ''    Medical Information:'' @ [CHR 0x0A]
     @ ''    '' @ context @ [CHR 0x0A, CHR 0x0A]
     @ ''    User Question: '' @ question_text @ [CHR 0x0A, CHR 0x0A]
     @ ''    Please provide a clear, accurate, and helpful answer based on the medical information above.''"

definition query_medical_qa ::
  "string \<Rightarrow> ('s, 'd) chroma \<Rightarrow> (string \<Rightarrow> string \<Rightarrow> exn + string) \<Rightarrow> int \<Rightarrow> 's world
   \<Rightarrow> (exn + 'd answer_result) \<times> 's world" where
  "query_medical_qa question_text store client top_k w =
     (let w1 = emit [Query [question_text] top_k] w
      in case query store (collection w1) [question_text] top_k of
           Inl e \<Rightarrow> (Inl e, w1)
         | Inr results \<Rightarrow>
             (case first_item (res_documents results) of
                Inl e \<Rightarrow> (Inl e, w1)
              | Inr docs \<Rightarrow>
                  (let context = join [CHR 0x0A, CHR 0x0A] docs;
                       prompt = prompt_of context question_text;
                       w2 = emit [Generate ''gemini-2.0-flash-exp'' prompt] w1
                   in case client ''gemini-2.0-flash-exp'' prompt of
                        Inl e \<Rightarrow> (Inl e, w2)
                      | Inr response \<Rightarrow>
                          (case first_item (res_metadatas results) of
                             Inl e \<Rightarrow> (Inl e, w2)
                           | Inr metas \<Rightarrow>
                               (case first_item (res_distances results) of
                                  Inl e \<Rightarrow> (Inl e, w2)
                                | Inr dists \<Rightarrow>
                                    (Inr \<lparr>answer_text = response, sources = metas, distances = dists\<rparr>,
                                     w2))))))"

definition show_collection_info :: "('s, 'd) chroma \<Rightarrow> 's world \<Rightarrow> bool \<times> 's world" where
  "show_collection_info store w =
     (let n = count store (collection w)
      in if n = 0 then (False, emit [Count] w) else (True, emit [Count] w))"

text \<open>
  The loop of \<open>interactive_query\<close>, over the lines still to be typed. Whatever the query
  or the display of its result raises is caught and the loop goes on; \<open>input\<close> stands
  outside the \<open>try\<close>.
\<close>

fun interactive_loop ::
  "('s, 'd) chroma \<Rightarrow> (string \<Rightarrow> string \<Rightarrow> exn + string) \<Rightarrow> string list \<Rightarrow> 's world \<Rightarrow> exn option \<times> 's world" where
  "interactive_loop store client [] w =
     (Some (Exception ''EOFError'' ''EOF when reading a line''), w\<lparr>stdin := []\<rparr>)"
| "interactive_loop store client (line # rest) w =
     (let question_text = strip line
      in if lower question_text \<in> set [''quit'', ''exit'', ''q''] then (None, w\<lparr>stdin := rest\<rparr>)
         else if question_text = [] then interactive_loop store client rest w
         else (case query_medical_qa question_text store client 5 (w\<lparr>stdin := rest\<rparr>) of
                 (r, w1) \<Rightarrow> interactive_loop store client rest w1))"

definition interactive_query ::
  "('s, 'd) chroma \<Rightarrow> (string \<Rightarrow> string \<Rightarrow> exn + string) \<Rightarrow> 's world \<Rightarrow> exn option \<times> 's world" where
  "interactive_query store client w = interactive_loop store client (stdin w) w"

definition main_query_medical_qa ::
  "('s, 'd) chroma \<Rightarrow> (string \<Rightarrow> string \<Rightarrow> exn + string) \<Rightarrow> 's world \<Rightarrow> exn option \<times> 's world" where
  "main_query_medical_qa store client w =
     (case show_collection_info store w of
        (False, w1) \<Rightarrow> (None, w1)
      | (True, w1) \<Rightarrow>
          (case input w1 of
             (Inl e, w2) \<Rightarrow> (Some e, w2)
           | (Inr line, w2) \<Rightarrow>
               (let choice = strip line
                in if choice = ''1'' then interactive_query store client w2
                   else if choice = ''2''
                   then (case input w2 of
                           (Inl e, w3) \<Rightarrow> (Some e, w3)
                         | (Inr l, w3) \<Rightarrow>
                             (let question_text = strip l
                              in if question_text \<noteq> []
                                 then (case query_medical_qa question_text store client 5 w3 of
                                         (Inl e, w4) \<Rightarrow> (Some e, w4)
                                       | (Inr r, w4) \<Rightarrow> (None, w4))
                                 else (None, w3)))
                   else (None, w2))))"

section \<open>What the loader is compared with\<close>

text \<open>
  The description of extraction in the words of the specification: the trimmed text of an
  element when it has a non-empty one; the question and answer of a QAPair element whose
  first \<open>Question\<close> child and first \<open>Answer\<close> child both have one; the Document made of
  the pair at a 1-based position; the pairs extracted from one file (none when it cannot
  be read); and the Documents of one file.
\<close>

definition trimmed_text :: "element \<Rightarrow> string option" where
  "trimmed_text e = (case elem_text e of None \<Rightarrow> None | Some t \<Rightarrow> if strip t = [] then None else Some (strip t))"

definition pair_qa :: "element \<Rightarrow> qa option" where
  "pair_qa p =
     (case find_child ''Question'' p of
        None \<Rightarrow> None
      | Some qe \<Rightarrow>
          (case find_child ''Answer'' p of
             None \<Rightarrow> None
           | Some ae \<Rightarrow>
               (case trimmed_text qe of
                  None \<Rightarrow> None
                | Some q \<Rightarrow>
                    (case trimmed_text ae of
                       None \<Rightarrow> None
                     | Some a \<Rightarrow> Some \<lparr>question = q, answer = a\<rparr>))))"

definition qa_document :: "string \<Rightarrow> nat \<Rightarrow> qa \<Rightarrow> document" where
  "qa_document rp k qa =
     \<lparr>doc_id = rp @ ''_qa_'' @ str_nat k,
      doc_text = ''Question: '' @ question qa @ [CHR 0x0A] @ ''Answer: '' @ answer qa,
      doc_question = question qa,
      doc_answer = answer qa,
      doc_source_file = rp\<rparr>"

definition file_qa_pairs :: "(string \<Rightarrow> string + element) \<Rightarrow> xml_file \<Rightarrow> qa list" where
  "file_qa_pairs fromstring f =
     (case contents f of Inl e \<Rightarrow> [] | Inr xml_content \<Rightarrow> snd (extract_qa_from_xml fromstring xml_content))"

definition file_documents :: "(string \<Rightarrow> string + element) \<Rightarrow> xml_file \<Rightarrow> document list" where
  "file_documents fromstring f =
     map (\<lambda>k. qa_document (relpath f) (k + 1) (file_qa_pairs fromstring f ! k))
         [0..<length (file_qa_pairs fromstring f)]"

definition pair_document_text :: "element \<Rightarrow> string option" where
  "pair_document_text p =
     map_option (\<lambda>qa. ''Question: '' @ question qa @ [CHR 0x0A] @ ''Answer: '' @ answer qa) (pair_qa p)"

section \<open>What the ingestor is compared with\<close>

text \<open>
  The partition the specification describes: contiguous batches of \<open>b\<close> documents, the last
  one possibly shorter. A batch is handed over as one call with its ids, its texts and its
  metadata. \<open>adds\<close> keeps the calls to \<open>collection.add\<close> of a trace, in order;
  \<open>added_ids\<close> and \<open>added_texts\<close> are the ids and the texts those calls carry, in order.
\<close>

function batches :: "nat \<Rightarrow> 'a list \<Rightarrow> 'a list list" where
  "batches b xs = (if b = 0 \<or> xs = [] then [] else take b xs # batches b (drop b xs))"
  by pat_completeness auto
termination
  by (relation "measure (\<lambda>(b, xs). length xs)") auto

declare batches.simps [simp del]

definition batch_call :: "('a \<Rightarrow> string) \<Rightarrow> ('a \<Rightarrow> string) \<Rightarrow> ('a \<Rightarrow> metadata) \<Rightarrow> 'a list \<Rightarrow> event" where
  "batch_call id_of text_of meta_of batch = Add (map id_of batch) (map text_of batch) (map meta_of batch)"

fun is_add :: "event \<Rightarrow> bool" where
  "is_add (Add ids texts metadatas) = True"
| "is_add e = False"

definition adds :: "event list \<Rightarrow> event list" where
  "adds tr = filter is_add tr"

fun ids_of :: "event \<Rightarrow> string list" where
  "ids_of (Add ids texts metadatas) = ids"
| "ids_of e = []"

fun texts_of :: "event \<Rightarrow> string list" where
  "texts_of (Add ids texts metadatas) = texts"
| "texts_of e = []"

definition added_ids :: "event list \<Rightarrow> string list" where
  "added_ids tr = concat (map ids_of tr)"

definition added_texts :: "event list \<Rightarrow> string list" where
  "added_texts tr = concat (map texts_of tr)"

text \<open>
  The batches of the specification: their concatenation is the input, every batch but the
  last has exactly \<open>b\<close> elements, and none is empty or longer than \<open>b\<close>.
\<close>

definition contiguous_batches :: "nat \<Rightarrow> 'a list \<Rightarrow> 'a list list \<Rightarrow> bool" where
  "contiguous_batches b xs bs =
     (concat bs = xs
      \<and> list_all (\<lambda>batch. length batch = b) (butlast bs)
      \<and> list_all (\<lambda>batch. batch \<noteq> [] \<and> length batch \<le> b) bs)"

(*DEFS-END*)

section \<open>Examples\<close>

text \<open>
  A small directory for the concrete instances below. The XML library is stood for by a
  table from three file contents to what \<open>ET.fromstring\<close> gives for them: the tree of
  each of the two well-formed texts, and the \<open>ParseError\<close> of the text that ends after
  its start tag.
\<close>

definition example_pair :: element where
  "example_pair = Element ''QAPair'' None
     [Element ''Question'' (Some '' What is Glaucoma? '') [],
      Element ''Answer'' (Some ''A group of eye diseases.'') []]"

definition example_pair_no_answer :: element where
  "example_pair_no_answer = Element ''QAPair'' None [Element ''Question'' (Some ''Who is at risk?'') []]"

definition example_pair_blank :: element where
  "example_pair_blank = Element ''QAPair'' None
     [Element ''Question'' (Some ''  '') [], Element ''Answer'' (Some ''Nobody knows.'') []]"

definition example_pair2 :: element where
  "example_pair2 = Element ''QAPair'' None
     [Element ''Question'' (Some ''How is it treated?'') [],
      Element ''Answer'' (Some ''With eye drops.'') []]"

definition example_root :: element where
  "example_root = Element ''Document'' None
     [Element ''Focus'' (Some ''Glaucoma'') [],
      Element ''QAPairs'' None [example_pair, example_pair_no_answer, example_pair_blank, example_pair2]]"

definition example_pair_xml :: string where
  "example_pair_xml =
     ''<QAPair><Question> What is Glaucoma? </Question><Answer>A group of eye diseases.</Answer></QAPair>''"

definition example_document_xml :: string where
  "example_document_xml =
     ''<Document><Focus>Glaucoma</Focus><QAPairs>''
     @ example_pair_xml
     @ ''<QAPair><Question>Who is at risk?</Question></QAPair>''
     @ ''<QAPair><Question>  </Question><Answer>Nobody knows.</Answer></QAPair>''
     @ ''<QAPair><Question>How is it treated?</Question><Answer>With eye drops.</Answer></QAPair>''
     @ ''</QAPairs></Document>''"

definition example_fromstring :: "string \<Rightarrow> string + element" where
  "example_fromstring s =
     (if s = example_document_xml then Inr example_root
      else if s = example_pair_xml then Inr example_pair
      else if s = ''<Document>'' then Inl ''no element found: line 1, column 10''
      else Inl ''syntax error: line 1, column 0'')"

definition example_tree :: fs_tree where
  "example_tree = Dir [(''readme.txt'', Inr ''notes''),
                       (''broken.xml'', Inr ''<Document>''),
                       (''pair.xml'', Inr example_pair_xml)]
                      [(''1_CancerGov_QA'', Dir [(''0000001.xml'', Inr example_document_xml)] [])]"


definition example_broken_file :: xml_file where
  "example_broken_file =
     \<lparr>file_path = ''./MedQuAD/broken.xml'', relpath = ''broken.xml'', contents = Inr ''<Document>''\<rparr>"

definition example_later_files :: "xml_file list" where
  "example_later_files =
     [\<lparr>file_path = ''./MedQuAD/pair.xml'', relpath = ''pair.xml'',
        contents = Inr example_pair_xml\<rparr>,
      \<lparr>file_path = ''./MedQuAD/1_CancerGov_QA/0000001.xml'', relpath = ''1_CancerGov_QA/0000001.xml'',
        contents = Inr example_document_xml\<rparr>]"

text \<open>
  A store for the concrete instances: the collection is the list of the entries added,
  \<open>add\<close> appends a batch, \<open>query\<close> answers each query text with the first \<open>n_results\<close>
  entries and the distances 0, 1, 2, ... A second store refuses every batch that holds the
  id \<open>1_CancerGov_QA/0000001.xml_qa_1\<close> or the id \<open>medlineplus_1\<close>, and takes any other.
\<close>

definition example_store :: "((string \<times> string \<times> metadata) list, nat) chroma" where
  "example_store =
     \<lparr>count = length,
      add = (\<lambda>s ids texts metadatas. (None, s @ zip ids (zip texts metadatas))),
      query = (\<lambda>s query_texts n_results.
                 Inr \<lparr>res_documents = map (\<lambda>q. map (\<lambda>entry. fst (snd entry)) (slice_to s n_results)) query_texts,
                      res_metadatas = map (\<lambda>q. map (\<lambda>entry. snd (snd entry)) (slice_to s n_results)) query_texts,
                      res_distances = map (\<lambda>q. [0..<length (slice_to s n_results)]) query_texts\<rparr>),
      delete_collection = (\<lambda>s name. None),
      create_collection = (\<lambda>name. Inr [])\<rparr>"

definition example_rejecting_store :: "((string \<times> string \<times> metadata) list, nat) chroma" where
  "example_rejecting_store =
     example_store
       \<lparr>add := (\<lambda>s ids texts metadatas.
                  if ''1_CancerGov_QA/0000001.xml_qa_1'' \<in> set ids \<or> ''medlineplus_1'' \<in> set ids
                  then (Some (Exception ''ConnectionError'' ''store unavailable''), s)
                  else (None, s @ zip ids (zip texts metadatas)))\<rparr>"

definition example_world :: "(string \<times> string \<times> metadata) list world" where
  "example_world = \<lparr>collection = [], trace = [], stdin = []\<rparr>"

definition example_docs :: "document list" where
  "example_docs =
     [\<lparr>doc_id = ''1_CancerGov_QA/0000001.xml_qa_1'',
       doc_text = ''Question: What is Glaucoma?\<newline>Answer: A group of eye diseases.'',
       doc_question = ''What is Glaucoma?'', doc_answer = ''A group of eye diseases.'',
       doc_source_file = ''1_CancerGov_QA/0000001.xml''\<rparr>,
      \<lparr>doc_id = ''1_CancerGov_QA/0000001.xml_qa_2'',
       doc_text = ''Question: How is it treated?\<newline>Answer: With eye drops.'',
       doc_question = ''How is it treated?'', doc_answer = ''With eye drops.'',
       doc_source_file = ''1_CancerGov_QA/0000001.xml''\<rparr>]"

(*EXAMPLES-END*)

section \<open>The loader computes the Documents of each selected file\<close>

lemma strip_Nil: "strip [] = []"
  by (simp add: strip_def)

lemma text_stripped_trimmed:
  "text_stripped e = (case trimmed_text e of None \<Rightarrow> [] | Some t \<Rightarrow> t)"
  by (simp add: text_stripped_def trimmed_text_def strip_Nil split: option.splits)

lemma trimmed_text_nonempty: "trimmed_text e = Some t \<Longrightarrow> t \<noteq> []"
  by (auto simp: trimmed_text_def split: option.splits if_splits)

lemma qa_loop_map_filter: "qa_loop es acc = acc @ List.map_filter pair_qa es"
proof (induction es arbitrary: acc)
  case Nil
  show ?case by (simp add: List.map_filter_simps)
next
  case (Cons p es)
  show ?case
    by (auto simp: Cons.IH pair_qa_def text_stripped_trimmed List.map_filter_simps Let_def
             dest: trimmed_text_nonempty split: option.splits)
qed

lemma qa_documents_loop_documents:
  "documents (qa_documents_loop rp i qas st) =
     documents st @ map (\<lambda>k. qa_document rp (i + k + 1) (qas ! k)) [0..<length qas]"
proof (induction qas arbitrary: i st)
  case Nil
  show ?case by simp
next
  case (Cons q qas)
  have "map (\<lambda>k. qa_document rp (i + k + 1) ((q # qas) ! k)) [0..<length (q # qas)]
        = qa_document rp (i + 1) q # map (\<lambda>k. qa_document rp (i + 1 + k + 1) (qas ! k)) [0..<length qas]"
    by (simp add: map_upt_Suc del: upt_Suc)
  then show ?case
    by (simp add: Cons.IH qa_document_def)
qed

lemma qa_documents_loop_printed: "printed (qa_documents_loop rp i qas st) = printed st"
  by (induction qas arbitrary: i st) auto

lemma qa_documents_loop_total_files: "total_files (qa_documents_loop rp i qas st) = total_files st"
  by (induction qas arbitrary: i st) auto

lemma qa_documents_loop_processed: "processed_files (qa_documents_loop rp i qas st) = processed_files st"
  by (induction qas arbitrary: i st) auto

lemma process_file_documents:
  "documents (process_file fromstring n f st) = documents st @ file_documents fromstring f"
  by (simp add: process_file_def Let_def file_documents_def file_qa_pairs_def qa_documents_loop_documents
           split: sum.splits prod.splits)

lemma process_file_printed:
  "\<exists>out. printed (process_file fromstring n f st) = printed st @ out"
  by (auto simp: process_file_def Let_def qa_documents_loop_printed split: sum.splits prod.splits)

lemma files_loop_documents:
  "documents (files_loop fromstring n files st) =
     documents st @ concat (map (file_documents fromstring) files)"
  by (induction files arbitrary: st) (simp_all add: process_file_documents)

lemma load_documents:
  "snd (load_xml_documents_from_directory fromstring directory_path tree max_files specific_dirs) =
     concat (map (file_documents fromstring)
               (snd (limit_files max_files (walk_xml_files specific_dirs directory_path [] tree))))"
  by (simp add: load_xml_documents_from_directory_def Let_def files_loop_documents split: prod.splits)

lemma extract_parsed:
  assumes "fromstring xml_content = Inr root"
  shows "extract_qa_from_xml fromstring xml_content =
           ([], List.map_filter pair_qa (findall_descendants ''QAPair'' root))"
  using assms by (simp add: extract_qa_from_xml_def qa_loop_map_filter)

lemma extract_malformed:
  assumes "fromstring xml_content = Inl msg"
  shows "extract_qa_from_xml fromstring xml_content = ([Print (''Error parsing XML: '' @ msg)], [])"
  using assms by (simp add: extract_qa_from_xml_def)

lemma map_filter_pair_document_text:
  "List.map_filter pair_document_text es =
     map (\<lambda>qa. ''Question: '' @ question qa @ [CHR 0x0A] @ ''Answer: '' @ answer qa)
         (List.map_filter pair_qa es)"
  by (induction es) (auto simp: List.map_filter_simps pair_document_text_def split: option.splits)

lemma map_nth_comp_doc: "map (\<lambda>k. g (xs ! k)) [0..<length xs] = map g xs"
  by (rule nth_equalityI) auto

lemma doc_text_file_documents:
  assumes c: "contents f = Inr xml_content" and p: "fromstring xml_content = Inr root"
  shows "map doc_text (file_documents fromstring f) =
           List.map_filter pair_document_text (findall_descendants ''QAPair'' root)"
proof -
  let ?qas = "List.map_filter pair_qa (findall_descendants ''QAPair'' root)"
  have e: "extract_qa_from_xml fromstring xml_content = ([], ?qas)"
    using p by (rule extract_parsed)
  have "map doc_text (file_documents fromstring f)
        = map (\<lambda>k. ''Question: '' @ question (?qas ! k) @ [CHR 0x0A] @ ''Answer: '' @ answer (?qas ! k))
              [0..<length ?qas]"
    by (simp add: file_documents_def file_qa_pairs_def c e qa_document_def o_def Let_def)
  also have "\<dots> = map (\<lambda>qa. ''Question: '' @ question qa @ [CHR 0x0A] @ ''Answer: '' @ answer qa) ?qas"
    by (rule map_nth_comp_doc)
  finally show ?thesis
    by (simp add: map_filter_pair_document_text)
qed

lemma walk_single_file:
  assumes "endswith name ''.xml''"
  shows "walk_xml_files specific_dirs directory_path [] (Dir [(name, c)] []) =
           [\<lparr>file_path = path_join directory_path name, relpath = name, contents = c\<rparr>]"
  using assms by simp

subsection \<open>C1: a QAPair element at the root of a file\<close>

text \<open>
  What the loader returns for a directory holding one well-formed file: in document
  order, one Document for each QAPair element below the root of the file whose first
  Question child and first Answer child both have a non-empty trimmed text.
\<close>

lemma documents_below_root:
  assumes "fromstring xml_content = Inr root" and "endswith name ''.xml''"
  shows "map doc_text
           (snd (load_xml_documents_from_directory fromstring directory_path
                   (Dir [(name, Inr xml_content)] []) None None))
         = List.map_filter pair_document_text (findall_descendants ''QAPair'' root)"
proof -
  let ?f = "\<lparr>file_path = path_join directory_path name, relpath = name,
             contents = Inr xml_content :: exn + string\<rparr>"
  have "snd (load_xml_documents_from_directory fromstring directory_path
               (Dir [(name, Inr xml_content)] []) None None)
        = file_documents fromstring ?f"
    using assms(2) by (simp add: load_documents limit_files_def)
  moreover have "map doc_text (file_documents fromstring ?f)
        = List.map_filter pair_document_text (findall_descendants ''QAPair'' root)"
    using assms(1)
    by (simp add: doc_text_file_documents[where xml_content = xml_content and root = root])
  ultimately show ?thesis by simp
qed

text \<open>
  C1. The specification asks for one Document for each QAPair element that has a question
  and an answer, and the comment above the search in \<open>extract_qa_from_xml\<close> reads
  \<open># Find all QAPair elements\<close>. The search is \<open>root.findall('.//QAPair')\<close>, which looks
  below the root only. For the well-formed file \<open>pair.xml\<close> whose root is a QAPair element
  with the question \<open>What is Glaucoma?\<close> and the answer \<open>A group of eye diseases.\<close>, the
  Document asked for has the text \<open>Question: What is Glaucoma?\<newline>Answer: A group of eye
  diseases.\<close>; the search finds no element, the extractor returns no pair without
  printing anything, and the loader reports 0 pairs and returns no Document.
\<close>

theorem root_qa_pair_yields_no_document:
  "example_fromstring example_pair_xml = Inr example_pair
   \<and> tag example_pair = ''QAPair''
   \<and> pair_document_text example_pair
       = Some ''Question: What is Glaucoma?\<newline>Answer: A group of eye diseases.''
   \<and> findall_descendants ''QAPair'' example_pair = []
   \<and> extract_qa_from_xml example_fromstring example_pair_xml = ([], [])
   \<and> load_xml_documents_from_directory example_fromstring ''./MedQuAD/''
         (Dir [(''pair.xml'', Inr example_pair_xml)] []) None None
       = ([Print ''==== Loading XML documents from directory and subdirectories ===='',
           Print ''Found 1 XML files'',
           Print ''Processed 1 XML files'',
           Print ''Extracted 0 QA pairs''], [])"
  by code_simp

subsection \<open>C2: ids\<close>

lemma length_file_documents: "length (file_documents fromstring f) = length (file_qa_pairs fromstring f)"
  by (simp add: file_documents_def)









subsection \<open>C8: a malformed file is reported and skipped\<close>

lemma files_loop_append:
  "files_loop fromstring n (xs @ ys) st = files_loop fromstring n ys (files_loop fromstring n xs st)"
  by (induction xs arbitrary: st) simp_all

lemma files_loop_printed_grows:
  "\<exists>out. printed (files_loop fromstring n files st) = printed st @ out"
proof (induction files arbitrary: st)
  case Nil
  show ?case by simp
next
  case (Cons f files)
  obtain o1 where o1: "printed (process_file fromstring n f st) = printed st @ o1"
    using process_file_printed by blast
  obtain o2 where "printed (files_loop fromstring n files (process_file fromstring n f st))
                   = printed (process_file fromstring n f st) @ o2"
    using Cons.IH by blast
  then have "printed (files_loop fromstring n (f # files) st) = printed st @ (o1 @ o2)"
    using o1 by simp
  then show ?case ..
qed

lemma process_file_logs_malformed:
  assumes "contents f = Inr xml_content" and "fromstring xml_content = Inl msg"
  shows "Print (''Error parsing XML: '' @ msg) \<in> set (printed (process_file fromstring n f st))"
  using assms
  by (simp add: process_file_def Let_def extract_malformed[where msg = msg] qa_documents_loop_printed)

lemma file_documents_malformed:
  assumes "contents f = Inr xml_content" and "fromstring xml_content = Inl msg"
  shows "file_documents fromstring f = []"
  using assms by (simp add: file_documents_def file_qa_pairs_def extract_malformed[where msg = msg])

lemma files_loop_logs_malformed:
  assumes "contents f = Inr xml_content" and "fromstring xml_content = Inl msg"
  shows "Print (''Error parsing XML: '' @ msg) \<in> set (printed (files_loop fromstring n (before @ f # after) st))"
proof -
  let ?st = "process_file fromstring n f (files_loop fromstring n before st)"
  have "files_loop fromstring n (before @ f # after) st = files_loop fromstring n after ?st"
    by (simp add: files_loop_append)
  moreover obtain out where "printed (files_loop fromstring n after ?st) = printed ?st @ out"
    using files_loop_printed_grows by blast
  moreover have "Print (''Error parsing XML: '' @ msg) \<in> set (printed ?st)"
    by (rule process_file_logs_malformed[where fromstring = fromstring and xml_content = xml_content
          and msg = msg and f = f, OF assms])
  ultimately show ?thesis by simp
qed

lemma load_printed:
  assumes "limit_files max_files (walk_xml_files specific_dirs directory_path [] tree) = (out, files)"
  shows "\<exists>st0. set (printed (files_loop fromstring (length files) files st0))
           \<subseteq> set (fst (load_xml_documents_from_directory fromstring directory_path tree max_files specific_dirs))"
  using assms
  by (auto simp: load_xml_documents_from_directory_def Let_def)

text \<open>
  C8. When the content of a selected file is not well-formed XML, the extractor reports
  the parse error on the console and returns no pair; the message is among the lines the
  loader prints, the file contributes no Document, and the Documents returned are those
  of the files before it followed by those of the files after it: the run goes on.
\<close>

theorem malformed_file_is_logged_and_skipped:
  assumes "snd (limit_files max_files (walk_xml_files specific_dirs directory_path [] tree))
             = before @ f # after"
      and "contents f = Inr xml_content"
      and "fromstring xml_content = Inl msg"
  shows "extract_qa_from_xml fromstring xml_content = ([Print (''Error parsing XML: '' @ msg)], [])
       \<and> Print (''Error parsing XML: '' @ msg)
           \<in> set (fst (load_xml_documents_from_directory fromstring directory_path tree max_files specific_dirs))
       \<and> file_documents fromstring f = []
       \<and> snd (load_xml_documents_from_directory fromstring directory_path tree max_files specific_dirs)
           = concat (map (file_documents fromstring) before) @ concat (map (file_documents fromstring) after)"
proof -
  have a: "extract_qa_from_xml fromstring xml_content = ([Print (''Error parsing XML: '' @ msg)], [])"
    by (rule extract_malformed[where fromstring = fromstring and xml_content = xml_content, OF assms(3)])
  obtain out files where lf:
    "limit_files max_files (walk_xml_files specific_dirs directory_path [] tree) = (out, files)"
    by (cases "limit_files max_files (walk_xml_files specific_dirs directory_path [] tree)")
  then have files: "files = before @ f # after"
    using assms(1) by simp
  obtain st0 where "set (printed (files_loop fromstring (length files) files st0))
      \<subseteq> set (fst (load_xml_documents_from_directory fromstring directory_path tree max_files specific_dirs))"
    using load_printed[OF lf] by blast
  moreover have "Print (''Error parsing XML: '' @ msg)
      \<in> set (printed (files_loop fromstring (length files) files st0))"
    unfolding files
    by (rule files_loop_logs_malformed[where fromstring = fromstring and xml_content = xml_content
          and msg = msg and f = f, OF assms(2,3)])
  ultimately have b: "Print (''Error parsing XML: '' @ msg)
           \<in> set (fst (load_xml_documents_from_directory fromstring directory_path tree max_files specific_dirs))"
    by blast
  have d: "file_documents fromstring f = []"
    by (rule file_documents_malformed[where fromstring = fromstring and xml_content = xml_content
          and msg = msg and f = f, OF assms(2,3)])
  have c: "snd (load_xml_documents_from_directory fromstring directory_path tree max_files specific_dirs)
           = concat (map (file_documents fromstring) before) @ concat (map (file_documents fromstring) after)"
    using assms(1) d by (simp add: load_documents)
  show ?thesis using a b c d by blast
qed

theorem malformed_file_is_logged_and_skipped_witness:
  "snd (limit_files None (walk_xml_files None ''./MedQuAD/'' [] example_tree))
     = [] @ example_broken_file # example_later_files
   \<and> contents example_broken_file = Inr ''<Document>''
   \<and> example_fromstring ''<Document>'' = Inl ''no element found: line 1, column 10''
   \<and> Print ''Error parsing XML: no element found: line 1, column 10''
       \<in> set (fst (load_xml_documents_from_directory example_fromstring ''./MedQuAD/'' example_tree None None))
   \<and> map doc_id (snd (load_xml_documents_from_directory example_fromstring ''./MedQuAD/'' example_tree None None))
       = [''1_CancerGov_QA/0000001.xml_qa_1'', ''1_CancerGov_QA/0000001.xml_qa_2'']"
proof -
  have h1: "snd (limit_files None (walk_xml_files None ''./MedQuAD/'' [] example_tree))
              = [] @ example_broken_file # example_later_files"
    by code_simp
  have h2: "contents example_broken_file = Inr ''<Document>''"
    by (simp add: example_broken_file_def)
  have h3: "example_fromstring ''<Document>'' = Inl ''no element found: line 1, column 10''"
    by code_simp
  have docs: "map doc_id (concat (map (file_documents example_fromstring) [])
                          @ concat (map (file_documents example_fromstring) example_later_files))
       = [''1_CancerGov_QA/0000001.xml_qa_1'', ''1_CancerGov_QA/0000001.xml_qa_2'']"
    by code_simp
  note t = malformed_file_is_logged_and_skipped[where fromstring = example_fromstring
      and max_files = None and specific_dirs = None and directory_path = "''./MedQuAD/''"
      and tree = example_tree and before = "[]" and f = example_broken_file
      and after = example_later_files and xml_content = "''<Document>''"
      and msg = "''no element found: line 1, column 10''", OF h1 h2 h3]
  show ?thesis
    using h1 h2 h3 t docs by simp
qed

subsection \<open>C10: the file limit\<close>

text \<open>
  C10. \<open>max_files = 0\<close> limits nothing: the loader then prints and returns exactly what it
  does for \<open>max_files = None\<close>, the Documents of every file the walk found; for a positive
  \<open>n\<close> the Documents are those of the first \<open>n\<close> files found.
\<close>

theorem max_files_zero_is_no_limit:
  "load_xml_documents_from_directory fromstring directory_path tree (Some 0) specific_dirs
     = load_xml_documents_from_directory fromstring directory_path tree None specific_dirs
   \<and> snd (load_xml_documents_from_directory fromstring directory_path tree (Some 0) specific_dirs)
     = concat (map (file_documents fromstring) (walk_xml_files specific_dirs directory_path [] tree))
   \<and> (0 < n \<longrightarrow>
        snd (load_xml_documents_from_directory fromstring directory_path tree (Some n) specific_dirs)
        = concat (map (file_documents fromstring)
                      (take (nat n) (walk_xml_files specific_dirs directory_path [] tree))))"
  by (simp add: load_documents limit_files_def slice_to_def)
     (simp add: load_xml_documents_from_directory_def limit_files_def)

lemma example_first_file_documents:
  "concat (map (file_documents example_fromstring)
               (take (nat 1) (walk_xml_files None ''./MedQuAD/'' [] example_tree))) = []"
  by code_simp

lemma example_all_ids:
  "map doc_id (concat (map (file_documents example_fromstring)
                           (walk_xml_files None ''./MedQuAD/'' [] example_tree)))
   = [''1_CancerGov_QA/0000001.xml_qa_1'', ''1_CancerGov_QA/0000001.xml_qa_2'']"
  by code_simp

theorem max_files_zero_is_no_limit_witness:
  "(0::int) < 1
   \<and> snd (load_xml_documents_from_directory example_fromstring ''./MedQuAD/'' example_tree (Some 1) None) = []
   \<and> map doc_id (snd (load_xml_documents_from_directory example_fromstring ''./MedQuAD/'' example_tree (Some 0) None))
       = [''1_CancerGov_QA/0000001.xml_qa_1'', ''1_CancerGov_QA/0000001.xml_qa_2'']"
proof -
  note t = max_files_zero_is_no_limit[of example_fromstring "''./MedQuAD/''" example_tree None 1]
  have a: "snd (load_xml_documents_from_directory example_fromstring ''./MedQuAD/'' example_tree (Some 1) None) = []"
    using t example_first_file_documents by simp
  have "snd (load_xml_documents_from_directory example_fromstring ''./MedQuAD/'' example_tree (Some 0) None)
        = concat (map (file_documents example_fromstring) (walk_xml_files None ''./MedQuAD/'' [] example_tree))"
    using t by blast
  then have b: "map doc_id (snd (load_xml_documents_from_directory example_fromstring ''./MedQuAD/'' example_tree (Some 0) None))
       = [''1_CancerGov_QA/0000001.xml_qa_1'', ''1_CancerGov_QA/0000001.xml_qa_2'']"
    by (simp only: example_all_ids)
  show ?thesis using a b by simp
qed

section \<open>The batch loop\<close>

lemma batches_Nil: "batches b [] = []"
  by (simp add: batches.simps)

lemma batches_Cons: "0 < b \<Longrightarrow> xs \<noteq> [] \<Longrightarrow> batches b xs = take b xs # batches b (drop b xs)"
  by (subst batches.simps) simp

lemma concat_batches: "0 < b \<Longrightarrow> concat (batches b xs) = xs"
proof (induction b xs rule: batches.induct)
  case (1 b xs)
  show ?case
  proof (cases "xs = []")
    case True
    then show ?thesis by (simp add: batches_Nil)
  next
    case False
    then show ?thesis
      using 1 by (simp add: batches_Cons)
  qed
qed

lemma batches_sizes:
  "0 < b \<Longrightarrow> batch \<in> set (batches b xs) \<Longrightarrow> batch \<noteq> [] \<and> length batch \<le> b"
proof (induction b xs rule: batches.induct)
  case (1 b xs)
  show ?case
  proof (cases "xs = []")
    case True
    then show ?thesis using 1(3) by (simp add: batches_Nil)
  next
    case False
    then show ?thesis
      using 1 by (auto simp: batches_Cons)
  qed
qed

lemma batches_full:
  "0 < b \<Longrightarrow> Suc i < length (batches b xs) \<Longrightarrow> length (batches b xs ! i) = b"
proof (induction b xs arbitrary: i rule: batches.induct)
  case (1 b xs)
  show ?case
  proof (cases "xs = []")
    case True
    then show ?thesis using 1(3) by (simp add: batches_Nil)
  next
    case False
    have c: "batches b xs = take b xs # batches b (drop b xs)"
      using False 1(2) by (simp add: batches_Cons)
    have ne: "batches b (drop b xs) \<noteq> []"
      using 1(3) c by auto
    then have "drop b xs \<noteq> []"
      by (auto simp: batches_Nil)
    then have len: "b < length xs" by simp
    show ?thesis
    proof (cases i)
      case 0
      then show ?thesis using c len by simp
    next
      case (Suc j)
      then show ?thesis
        using 1(1)[of j] 1(2,3) False c by simp
    qed
  qed
qed

lemma range_count_step:
  assumes "0 < b" and "0 < (n::nat)"
  shows "(n + b - 1) div b = Suc ((n - b + b - 1) div b)"
proof -
  have e1: "n + b - 1 = (n - 1) + b"
    using assms by arith
  have step: "((n - 1) + b) div b = Suc ((n - 1) div b)"
    using assms(1) by (simp add: div_add_self2)
  show ?thesis
  proof (cases "n \<le> b")
    case True
    have e2: "n - b + b - 1 = b - 1"
      using True by arith
    have z1: "(n - 1) div b = 0"
      using True assms by (intro div_less) arith
    have z2: "(b - 1) div b = 0"
      using assms(1) by (intro div_less) arith
    show ?thesis
      by (simp only: e1 e2 step z1 z2)
  next
    case False
    have e2: "n - b + b - 1 = n - 1"
      using False by arith
    show ?thesis
      by (simp only: e1 e2 step)
  qed
qed

lemma upt_Suc_shift: "[0..<Suc m] = 0 # map Suc [0..<m]"
  by (simp add: upt_conv_Cons map_Suc_upt del: upt_Suc)

lemma batch_slices:
  "0 < b \<Longrightarrow> map (\<lambda>i. take b (drop i xs)) (map (\<lambda>k. k * b) [0..<(length xs + b - 1) div b]) = batches b xs"
proof (induction b xs rule: batches.induct)
  case (1 b xs)
  show ?case
  proof (cases "xs = []")
    case True
    then show ?thesis using 1(2) by (simp add: batches_Nil)
  next
    case False
    then have pos: "0 < length xs" by simp
    let ?m = "(length (drop b xs) + b - 1) div b"
    have cnt: "(length xs + b - 1) div b = Suc ?m"
      using range_count_step[OF 1(2) pos] by simp
    have ih: "map (\<lambda>i. take b (drop i (drop b xs))) (map (\<lambda>k. k * b) [0..<?m]) = batches b (drop b xs)"
      using 1 False by simp
    have "map (\<lambda>i. take b (drop i xs)) (map (\<lambda>k. k * b) [0..<Suc ?m])
          = take b xs # map (\<lambda>i. take b (drop i (drop b xs))) (map (\<lambda>k. k * b) [0..<?m])"
      by (simp only: upt_Suc_shift) (simp add: o_def add.commute)
    then have "map (\<lambda>i. take b (drop i xs)) (map (\<lambda>k. k * b) [0..<Suc ?m]) = take b xs # batches b (drop b xs)"
      by (simp only: ih)
    then show ?thesis
      by (simp only: cnt batches_Cons[OF 1(2) False])
  qed
qed

lemma py_range_batches:
  assumes "0 < batch_size"
  shows "\<exists>indices. py_range (length docs) batch_size = Inr indices
           \<and> map (\<lambda>i. take (nat batch_size) (drop i docs)) indices = batches (nat batch_size) docs"
proof -
  have "0 < nat batch_size" using assms by simp
  then have "map (\<lambda>i. take (nat batch_size) (drop i docs))
               (map (\<lambda>k. k * nat batch_size) [0..<(length docs + nat batch_size - 1) div nat batch_size])
             = batches (nat batch_size) docs"
    by (rule batch_slices)
  moreover have "py_range (length docs) batch_size
                 = Inr (map (\<lambda>k. k * nat batch_size) [0..<(length docs + nat batch_size - 1) div nat batch_size])"
    using assms by (simp add: py_range_def)
  ultimately show ?thesis by blast
qed

lemma adds_append: "adds (xs @ ys) = adds xs @ adds ys"
  by (simp add: adds_def)

lemma trace_emit: "trace (emit es w) = trace w @ es"
  by (simp add: emit_def)

lemma collection_emit: "collection (emit es w) = collection w"
  by (simp add: emit_def)

lemma batch_loop_Cons:
  assumes "add store (collection w) (map id_of (take (nat batch_size) (drop i docs)))
             (map text_of (take (nat batch_size) (drop i docs)))
             (map meta_of (take (nat batch_size) (drop i docs))) = (None, s)"
  shows "batch_loop store id_of text_of meta_of noun docs batch_size (i # rest) added_docs w =
           batch_loop store id_of text_of meta_of noun docs batch_size rest
             (added_docs + length (take (nat batch_size) (drop i docs)))
             (emit [Print (''Added batch '' @ str_nat (i div nat batch_size + 1) @ '': ''
                           @ str_nat (length (take (nat batch_size) (drop i docs))) @ '' '' @ noun
                           @ '' (Total: '' @ str_nat (added_docs + length (take (nat batch_size) (drop i docs)))
                           @ ''/'' @ str_nat (length docs) @ '')'')]
                ((emit [batch_call id_of text_of meta_of (take (nat batch_size) (drop i docs))] w)
                   \<lparr>collection := s\<rparr>))"
  using assms by (simp add: Let_def collection_emit batch_call_def)

lemma batch_loop_Cons_raise:
  assumes "add store (collection w) (map id_of (take (nat batch_size) (drop i docs)))
             (map text_of (take (nat batch_size) (drop i docs)))
             (map meta_of (take (nat batch_size) (drop i docs))) = (Some e, s)"
  shows "batch_loop store id_of text_of meta_of noun docs batch_size (i # rest) added_docs w =
           (Inl e, (emit [batch_call id_of text_of meta_of (take (nat batch_size) (drop i docs))] w)
                     \<lparr>collection := s\<rparr>)"
  using assms by (simp add: Let_def collection_emit batch_call_def)

lemma adds_call: "adds (tr @ [batch_call id_of text_of meta_of batch]) = adds tr @ [batch_call id_of text_of meta_of batch]"
  by (simp add: adds_def batch_call_def)

lemma adds_print: "adds (tr @ [Print l]) = adds tr"
  by (simp add: adds_def)

lemma batch_loop_ok:
  "batch_loop store id_of text_of meta_of noun docs batch_size indices added_docs w = (Inr n, w')
   \<Longrightarrow> adds (trace w') = adds (trace w)
         @ map (\<lambda>i. batch_call id_of text_of meta_of (take (nat batch_size) (drop i docs))) indices"
proof (induction indices arbitrary: added_docs w)
  case Nil
  then show ?case by simp
next
  case (Cons i rest)
  let ?batch = "take (nat batch_size) (drop i docs)"
  obtain r s where a: "add store (collection w) (map id_of ?batch) (map text_of ?batch) (map meta_of ?batch) = (r, s)"
    by (cases "add store (collection w) (map id_of ?batch) (map text_of ?batch) (map meta_of ?batch)")
  show ?case
  proof (cases r)
    case (Some e)
    then show ?thesis
      using Cons.prems a by (simp only: batch_loop_Cons_raise[where s = s and e = e]) simp
  next
    case None
    then have b: "add store (collection w) (map id_of ?batch) (map text_of ?batch) (map meta_of ?batch) = (None, s)"
      using a by simp
    let ?w2 = "emit [Print (''Added batch '' @ str_nat (i div nat batch_size + 1) @ '': ''
                           @ str_nat (length ?batch) @ '' '' @ noun
                           @ '' (Total: '' @ str_nat (added_docs + length ?batch)
                           @ ''/'' @ str_nat (length docs) @ '')'')]
                ((emit [batch_call id_of text_of meta_of ?batch] w)\<lparr>collection := s\<rparr>)"
    have run: "batch_loop store id_of text_of meta_of noun docs batch_size rest (added_docs + length ?batch) ?w2 = (Inr n, w')"
      using Cons.prems by (simp only: batch_loop_Cons[OF b])
    have "adds (trace ?w2) = adds (trace w) @ [batch_call id_of text_of meta_of ?batch]"
      by (simp add: trace_emit adds_def batch_call_def)
    then show ?thesis
      using Cons.IH[OF run] by simp
  qed
qed

lemma batch_loop_accepting:
  assumes "\<And>s ids texts metadatas. fst (add store s ids texts metadatas) = None"
  shows "\<exists>n w'. batch_loop store id_of text_of meta_of noun docs batch_size indices added_docs w = (Inr n, w')"
proof (induction indices arbitrary: added_docs w)
  case Nil
  show ?case by simp
next
  case (Cons i rest)
  let ?batch = "take (nat batch_size) (drop i docs)"
  obtain r s where a: "add store (collection w) (map id_of ?batch) (map text_of ?batch) (map meta_of ?batch) = (r, s)"
    by (cases "add store (collection w) (map id_of ?batch) (map text_of ?batch) (map meta_of ?batch)")
  have "r = None"
    using assms[of "collection w" "map id_of ?batch" "map text_of ?batch" "map meta_of ?batch"] a by simp
  then have b: "add store (collection w) (map id_of ?batch) (map text_of ?batch) (map meta_of ?batch) = (None, s)"
    using a by simp
  show ?case
    by (simp only: batch_loop_Cons[OF b]) (rule Cons.IH)
qed

lemma batch_loop_fail:
  "batch_loop store id_of text_of meta_of noun docs batch_size indices added_docs w = (Inl e, w')
   \<Longrightarrow> \<exists>k<length indices.
         adds (trace w') = adds (trace w)
           @ map (\<lambda>i. batch_call id_of text_of meta_of (take (nat batch_size) (drop i docs))) (take (Suc k) indices)
       \<and> last (trace w') = batch_call id_of text_of meta_of (take (nat batch_size) (drop (indices ! k) docs))
       \<and> (\<exists>s. add store s (map id_of (take (nat batch_size) (drop (indices ! k) docs)))
                          (map text_of (take (nat batch_size) (drop (indices ! k) docs)))
                          (map meta_of (take (nat batch_size) (drop (indices ! k) docs)))
               = (Some e, collection w'))"
proof (induction indices arbitrary: added_docs w)
  case Nil
  then show ?case by simp
next
  case (Cons i rest)
  let ?batch = "take (nat batch_size) (drop i docs)"
  let ?call = "\<lambda>i. batch_call id_of text_of meta_of (take (nat batch_size) (drop i docs))"
  obtain r s where a: "add store (collection w) (map id_of ?batch) (map text_of ?batch) (map meta_of ?batch) = (r, s)"
    by (cases "add store (collection w) (map id_of ?batch) (map text_of ?batch) (map meta_of ?batch)")
  show ?case
  proof (cases r)
    case (Some e')
    then have b: "add store (collection w) (map id_of ?batch) (map text_of ?batch) (map meta_of ?batch) = (Some e', s)"
      using a by simp
    have w': "w' = (emit [?call i] w)\<lparr>collection := s\<rparr>" and e: "e' = e"
      using Cons.prems by (simp_all only: batch_loop_Cons_raise[OF b]) simp_all
    have "adds (trace w') = adds (trace w) @ [?call i]"
      by (simp add: w' trace_emit adds_call)
    moreover have "last (trace w') = ?call i"
      by (simp add: w' trace_emit)
    moreover have "add store (collection w) (map id_of ?batch) (map text_of ?batch) (map meta_of ?batch)
                   = (Some e, collection w')"
      using b e by (simp add: w')
    ultimately show ?thesis
      by (intro exI[of _ 0]) auto
  next
    case None
    then have b: "add store (collection w) (map id_of ?batch) (map text_of ?batch) (map meta_of ?batch) = (None, s)"
      using a by simp
    let ?w2 = "emit [Print (''Added batch '' @ str_nat (i div nat batch_size + 1) @ '': ''
                           @ str_nat (length ?batch) @ '' '' @ noun
                           @ '' (Total: '' @ str_nat (added_docs + length ?batch)
                           @ ''/'' @ str_nat (length docs) @ '')'')]
                ((emit [?call i] w)\<lparr>collection := s\<rparr>)"
    have run: "batch_loop store id_of text_of meta_of noun docs batch_size rest (added_docs + length ?batch) ?w2 = (Inl e, w')"
      using Cons.prems by (simp only: batch_loop_Cons[OF b])
    from Cons.IH[OF run] obtain k where k: "k < length rest"
      and tr: "adds (trace w') = adds (trace ?w2) @ map ?call (take (Suc k) rest)"
      and la: "last (trace w') = ?call (rest ! k)"
      and st: "\<exists>s. add store s (map id_of (take (nat batch_size) (drop (rest ! k) docs)))
                          (map text_of (take (nat batch_size) (drop (rest ! k) docs)))
                          (map meta_of (take (nat batch_size) (drop (rest ! k) docs)))
               = (Some e, collection w')"
      by blast
    have "adds (trace ?w2) = adds (trace w) @ [?call i]"
      by (simp add: trace_emit adds_def batch_call_def)
    then have "adds (trace w') = adds (trace w) @ map ?call (take (Suc (Suc k)) (i # rest))"
      using tr by simp
    then show ?thesis
      using k la st by (intro exI[of _ "Suc k"]) simp
  qed
qed

lemma example_docs_loaded:
  "snd (load_xml_documents_from_directory example_fromstring ''./MedQuAD/'' example_tree None None) = example_docs"
  by code_simp

lemma contiguous_batches_batches:
  assumes "0 < b"
  shows "contiguous_batches b xs (batches b xs)"
proof -
  have "list_all (\<lambda>batch. length batch = b) (butlast (batches b xs))"
    using batches_full[OF assms, of _ xs]
    by (auto simp: list_all_length nth_butlast)
  moreover have "list_all (\<lambda>batch. batch \<noteq> [] \<and> length batch \<le> b) (batches b xs)"
    using batches_sizes[OF assms, of _ xs]
    by (simp add: list_all_iff)
  ultimately show ?thesis
    using concat_batches[OF assms, of xs] by (simp add: contiguous_batches_def)
qed

lemma batched_run_ok:
  assumes "0 < batch_size"
    and "(case py_range (length docs) batch_size of
            Inl e \<Rightarrow> (Some e, w0)
          | Inr indices \<Rightarrow>
              (case batch_loop store id_of text_of meta_of noun docs batch_size indices 0 w0 of
                 (Inl e, w1) \<Rightarrow> (Some e, w1)
               | (Inr added_docs, w1) \<Rightarrow> (None, emit [Print (fin added_docs)] w1))) = (None, w')"
  shows "adds (trace w') = adds (trace w0)
           @ map (batch_call id_of text_of meta_of) (batches (nat batch_size) docs)"
proof -
  obtain indices where r: "py_range (length docs) batch_size = Inr indices"
    and m: "map (\<lambda>i. take (nat batch_size) (drop i docs)) indices = batches (nat batch_size) docs"
    using py_range_batches[OF assms(1), of docs] by blast
  obtain res w1 where l: "batch_loop store id_of text_of meta_of noun docs batch_size indices 0 w0 = (res, w1)"
    by (cases "batch_loop store id_of text_of meta_of noun docs batch_size indices 0 w0")
  show ?thesis
  proof (cases res)
    case (Inl e)
    then show ?thesis using assms(2) r l by simp
  next
    case (Inr n)
    then have w': "w' = emit [Print (fin n)] w1"
      using assms(2) r l by simp
    have "adds (trace w1) = adds (trace w0)
            @ map (\<lambda>i. batch_call id_of text_of meta_of (take (nat batch_size) (drop i docs))) indices"
      using l Inr by (intro batch_loop_ok) simp
    moreover have "map (\<lambda>i. batch_call id_of text_of meta_of (take (nat batch_size) (drop i docs))) indices
                   = map (batch_call id_of text_of meta_of) (batches (nat batch_size) docs)"
      using m[symmetric] by (simp add: o_def)
    ultimately show ?thesis
      by (simp add: w' trace_emit adds_print)
  qed
qed

lemma batched_run_accepting:
  assumes "0 < batch_size"
    and "\<And>s ids texts metadatas. fst (add store s ids texts metadatas) = None"
  shows "\<exists>w'. (case py_range (length docs) batch_size of
            Inl e \<Rightarrow> (Some e, w0)
          | Inr indices \<Rightarrow>
              (case batch_loop store id_of text_of meta_of noun docs batch_size indices 0 w0 of
                 (Inl e, w1) \<Rightarrow> (Some e, w1)
               | (Inr added_docs, w1) \<Rightarrow> (None, emit [Print (fin added_docs)] w1))) = (None, w')"
proof -
  obtain indices where r: "py_range (length docs) batch_size = Inr indices"
    using py_range_batches[OF assms(1), of docs] by blast
  obtain n w1 where "batch_loop store id_of text_of meta_of noun docs batch_size indices 0 w0 = (Inr n, w1)"
    using batch_loop_accepting[of store id_of text_of meta_of noun docs batch_size indices 0 w0] assms(2)
    by blast
  then show ?thesis
    using r by simp
qed

lemma batched_run_fail:
  assumes "0 < batch_size"
    and "(case py_range (length docs) batch_size of
            Inl e \<Rightarrow> (Some e, w0)
          | Inr indices \<Rightarrow>
              (case batch_loop store id_of text_of meta_of noun docs batch_size indices 0 w0 of
                 (Inl e, w1) \<Rightarrow> (Some e, w1)
               | (Inr added_docs, w1) \<Rightarrow> (None, emit [Print (fin added_docs)] w1))) = (Some e, w')"
  shows "\<exists>k<length (batches (nat batch_size) docs).
           adds (trace w') = adds (trace w0)
             @ map (batch_call id_of text_of meta_of) (take (Suc k) (batches (nat batch_size) docs))
         \<and> last (trace w') = batch_call id_of text_of meta_of (batches (nat batch_size) docs ! k)
         \<and> (\<exists>s. add store s (map id_of (batches (nat batch_size) docs ! k))
                            (map text_of (batches (nat batch_size) docs ! k))
                            (map meta_of (batches (nat batch_size) docs ! k))
                 = (Some e, collection w'))"
proof -
  let ?B = "\<lambda>i. take (nat batch_size) (drop i docs)"
  obtain indices where r: "py_range (length docs) batch_size = Inr indices"
    and m: "map ?B indices = batches (nat batch_size) docs"
    using py_range_batches[OF assms(1), of docs] by blast
  obtain res w1 where l: "batch_loop store id_of text_of meta_of noun docs batch_size indices 0 w0 = (res, w1)"
    by (cases "batch_loop store id_of text_of meta_of noun docs batch_size indices 0 w0")
  show ?thesis
  proof (cases res)
    case (Inr n)
    then show ?thesis using assms(2) r l by simp
  next
    case (Inl e')
    then have l': "batch_loop store id_of text_of meta_of noun docs batch_size indices 0 w0 = (Inl e, w')"
      using assms(2) r l by simp
    from batch_loop_fail[OF l'] obtain k where k: "k < length indices"
      and tr: "adds (trace w') = adds (trace w0)
                 @ map (\<lambda>i. batch_call id_of text_of meta_of (?B i)) (take (Suc k) indices)"
      and la: "last (trace w') = batch_call id_of text_of meta_of (?B (indices ! k))"
      and st: "\<exists>s. add store s (map id_of (?B (indices ! k))) (map text_of (?B (indices ! k)))
                      (map meta_of (?B (indices ! k))) = (Some e, collection w')"
      by blast
    have len: "length (batches (nat batch_size) docs) = length indices"
      using m[symmetric] by simp
    have nth: "batches (nat batch_size) docs ! k = ?B (indices ! k)"
      using m[symmetric] k by simp
    have "map (\<lambda>i. batch_call id_of text_of meta_of (?B i)) (take (Suc k) indices)
          = map (batch_call id_of text_of meta_of) (take (Suc k) (batches (nat batch_size) docs))"
      using m[symmetric] by (simp add: take_map o_def)
    then show ?thesis
      using k tr la st len nth by (intro exI[of _ k]) simp
  qed
qed

(*LEMMAS-END*)

end
